theory Spec2Isabelle
  imports Complex_Main
begin

section \<open>JavaScript values\<close>

text \<open>
  A JavaScript string is kept as a \<open>string\<close>: one \<open>char\<close> per UTF-16 code unit, which
  covers the code units below 256. \<open>length\<close> is then the \<open>.length\<close> of the program.

  \<open>json\<close> is a value as \<open>JSON.parse\<close> or \<open>response.json()\<close> delivers it. An object
  is the list of its own properties, looked up by name. The value \<open>undefined\<close> is
  \<open>None\<close> of \<open>json option\<close>.
\<close>

datatype json =
    JNull
  | JBool bool
  | JNum rat
  | JStr string
  | JArr "json list"
  | JObj "(string \<times> json) list"

text \<open>
  What a \<open>throw\<close> carries. \<open>Error v\<close> is \<open>new Error(v)\<close>: its message is the string
  conversion of \<open>v\<close>, kept here unconverted. \<open>TypeError p\<close> is the engine's error on reading
  property \<open>p\<close> of \<open>null\<close>. \<open>Thrown name message\<close> is any exception of the platform
  (a network failure of \<open>fetch\<close>, a body that is not JSON).
\<close>

datatype js_error =
    Error json
  | TypeError string
  | Thrown string string

text \<open>
  \<open>v.name\<close> on a value that is neither \<open>null\<close> nor \<open>undefined\<close>. None of the names the
  program reads (candidates, content, parts, text, error, message) is a built-in property
  of a string, a number, a boolean, an array or the prototype of objects, so only the own
  properties of an object answer.
\<close>

fun get :: "json \<Rightarrow> string \<Rightarrow> json option" where
  "get (JObj kvs) name = map_of kvs name"
| "get _ name = None"

text \<open>\<open>v[0]\<close> on a value that is neither \<open>null\<close> nor \<open>undefined\<close>.\<close>

fun index0 :: "json \<Rightarrow> json option" where
  "index0 (JArr xs) = (case xs of [] \<Rightarrow> None | x # _ \<Rightarrow> Some x)"
| "index0 (JStr s) = (case s of [] \<Rightarrow> None | c # _ \<Rightarrow> Some (JStr [c]))"
| "index0 (JObj kvs) = map_of kvs ''0''"
| "index0 _ = None"

text \<open>\<open>v.name\<close>, which throws on \<open>null\<close>.\<close>

definition member :: "json \<Rightarrow> string \<Rightarrow> js_error + json option" where
  "member v name = (case v of JNull \<Rightarrow> Inl (TypeError name) | _ \<Rightarrow> Inr (get v name))"

text \<open>Optional chaining: \<open>v?.name\<close> and \<open>v?.[0]\<close> give \<open>undefined\<close> on \<open>null\<close> and \<open>undefined\<close>.\<close>

definition opt_member :: "json option \<Rightarrow> string \<Rightarrow> json option" where
  "opt_member v name =
     (case v of None \<Rightarrow> None | Some JNull \<Rightarrow> None | Some w \<Rightarrow> get w name)"

definition opt_index0 :: "json option \<Rightarrow> json option" where
  "opt_index0 v = (case v of None \<Rightarrow> None | Some JNull \<Rightarrow> None | Some w \<Rightarrow> index0 w)"

fun truthy :: "json \<Rightarrow> bool" where
  "truthy JNull = False"
| "truthy (JBool b) = b"
| "truthy (JNum r) = (r \<noteq> 0)"
| "truthy (JStr s) = (s \<noteq> [])"
| "truthy (JArr xs) = True"
| "truthy (JObj kvs) = True"

text \<open>\<open>a || b\<close>, where \<open>b\<close> is a string literal.\<close>

definition or_else :: "json option \<Rightarrow> json \<Rightarrow> json" where
  "or_else a b = (case a of None \<Rightarrow> b | Some v \<Rightarrow> if truthy v then v else b)"

text \<open>The decimal digits of a number, as a template literal prints an integer.\<close>

fun decimal :: "nat \<Rightarrow> string" where
  "decimal n =
     (if n < 10 then [''0123456789'' ! n]
      else decimal (n div 10) @ [''0123456789'' ! (n mod 10)])"

declare decimal.simps [simp del]

section \<open>generateContent\<close>

text \<open>
  \<open>fetch\<close> either rejects or resolves to a response. Of a response the program reads
  \<open>status\<close>, \<open>ok\<close> and \<open>json()\<close>; \<open>body\<close> is what \<open>json()\<close> gives: the parsed value, or
  the exception it rejects with.
\<close>

record response =
  status :: nat
  body :: "js_error + json"

text \<open>\<open>response.ok\<close>: by the Fetch standard, true exactly for a status from 200 to 299.\<close>

definition ok :: "response \<Rightarrow> bool" where
  "ok r = (200 \<le> status r \<and> status r \<le> 299)"

datatype outcome = Rejects js_error | Resolves response

definition delays :: "nat list" where
  "delays = [1000, 2000, 4000, 8000, 16000]"

text \<open>\<open>data.candidates?.[0]?.content?.parts?.[0]?.text\<close> for a \<open>data\<close> that is not \<open>null\<close>.\<close>

definition first_text :: "json \<Rightarrow> json option" where
  "first_text data =
     opt_member (opt_index0 (opt_member (opt_member (opt_index0 (get data ''candidates''))
       ''content'') ''parts'')) ''text''"

text \<open>
  The body of the \<open>try\<close> block for one outcome of \<open>fetch\<close>: \<open>Inr\<close> is the value of its
  \<open>return\<close>, \<open>Inl\<close> the error that reaches the \<open>catch\<close>.
\<close>

definition try_body :: "outcome \<Rightarrow> js_error + json" where
  "try_body oc =
     (case oc of
        Rejects e \<Rightarrow> Inl e
      | Resolves response \<Rightarrow>
          if \<not> ok response then
            (if status response = 429 \<or> status response \<ge> 500
             then Inl (Error (JStr (''API Error: '' @ decimal (status response))))
             else (case body response of
                     Inl e \<Rightarrow> Inl e
                   | Inr errorData \<Rightarrow>
                       (case member errorData ''error'' of
                          Inl e \<Rightarrow> Inl e
                        | Inr err \<Rightarrow>
                            Inl (Error (or_else (opt_member err ''message'')
                                          (JStr ''API Request Failed''))))))
          else (case body response of
                  Inl e \<Rightarrow> Inl e
                | Inr data \<Rightarrow>
                    (case member data ''candidates'' of
                       Inl e \<Rightarrow> Inl e
                     | Inr _ \<Rightarrow>
                         Inr (or_else (first_text data) (JStr ''No response generated.'')))))"

text \<open>
  What an invocation did: the number of calls of \<open>fetch\<close> and the delays passed to
  \<open>setTimeout\<close>, in order.
\<close>

record trace =
  attempts :: nat
  sleeps :: "nat list"

text \<open>
  The \<open>for\<close> loop from index \<open>i\<close>. \<open>fetch n\<close> is the outcome of call number \<open>n\<close> of
  \<open>fetch\<close> (the request is the same at every call). The result is the returned value
  (\<open>Inr\<close>; \<open>None\<close> is the \<open>undefined\<close> of falling out of the loop) or the error thrown
  to the caller (\<open>Inl\<close>).
\<close>

function for_loop :: "(nat \<Rightarrow> outcome) \<Rightarrow> nat \<Rightarrow> trace \<Rightarrow> (js_error + json option) \<times> trace" where
  "for_loop fetch i t =
     (if i \<le> length delays then
        (case try_body (fetch (attempts t)) of
           Inr v \<Rightarrow> (Inr (Some v), t\<lparr>attempts := attempts t + 1\<rparr>)
         | Inl error \<Rightarrow>
             if i = length delays then (Inl error, t\<lparr>attempts := attempts t + 1\<rparr>)
             else for_loop fetch (i + 1)
                    (t\<lparr>attempts := attempts t + 1, sleeps := sleeps t @ [delays ! i]\<rparr>))
      else (Inr None, t))"
  by pat_completeness auto
termination
  by (relation "measure (\<lambda>(fetch, i, t). Suc (length delays) - i)") auto

declare for_loop.simps [simp del]

definition generateContent :: "(nat \<Rightarrow> outcome) \<Rightarrow> (js_error + json option) \<times> trace" where
  "generateContent fetch = for_loop fetch 0 \<lparr>attempts = 0, sleeps = []\<rparr>"

text \<open>An outcome that leads to another attempt by its status or by an exception of \<open>fetch\<close>.\<close>

definition retryable :: "outcome \<Rightarrow> bool" where
  "retryable oc =
     (case oc of Rejects e \<Rightarrow> True
      | Resolves r \<Rightarrow> status r = 429 \<or> status r \<ge> 500)"

text \<open>The error that a retryable outcome raises in the \<open>try\<close> block.\<close>

definition retry_error :: "outcome \<Rightarrow> js_error" where
  "retry_error oc =
     (case oc of Rejects e \<Rightarrow> e
      | Resolves r \<Rightarrow> Error (JStr (''API Error: '' @ decimal (status r))))"

text \<open>
  The reply of the endpoint in the shape the program reads,
  \<open>{ candidates: [{ content: { parts: [{ text: t }] } }] }\<close>.
\<close>

definition reply_with_text :: "json \<Rightarrow> json" where
  "reply_with_text t =
     JObj [(''candidates'',
            JArr [JObj [(''content'', JObj [(''parts'', JArr [JObj [(''text'', t)]])])]])]"

section \<open>Strings\<close>

text \<open>
  The white space of \<open>trim\<close> and of \<open>\s\<close> among the code units below 256: tab, line
  feed, vertical tab, form feed, carriage return, space and no-break space.
\<close>

definition is_space :: "char \<Rightarrow> bool" where
  "is_space c =
     (c = CHR 0x09 \<or> c = CHR 0x0A \<or> c = CHR 0x0B \<or> c = CHR 0x0C \<or> c = CHR 0x0D
      \<or> c = CHR 0x20 \<or> c = CHR 0xA0)"

definition trim :: "string \<Rightarrow> string" where
  "trim s = rev (dropWhile is_space (rev (dropWhile is_space s)))"

text \<open>\<open>s.split(sep)\<close> for a separator of one character, and \<open>lines.join(sep)\<close>.\<close>

fun split_on :: "char \<Rightarrow> string \<Rightarrow> string list" where
  "split_on sep [] = [[]]"
| "split_on sep (c # cs) =
     (if c = sep then [] # split_on sep cs
      else (case split_on sep cs of [] \<Rightarrow> [[c]] | l # ls \<Rightarrow> (c # l) # ls))"

fun join :: "string \<Rightarrow> string list \<Rightarrow> string" where
  "join sep [] = []"
| "join sep [l] = l"
| "join sep (l # m # ls) = l @ sep @ join sep (m # ls)"

section \<open>UrlTrimmer.cleanUrls\<close>

text \<open>
  The \<open>URL\<close> class is the browser's. A parsed URL is kept as the serialisation of its
  scheme and authority (\<open>prefix\<close>, all that stands before the path), the serialisation of
  its path, whether that path is opaque (as in \<open>mailto:\<close> or \<open>data:\<close> URLs, which have
  no authority), its query and fragment (\<open>None\<close> is the standard's null) and the list of
  name-value pairs of its \<open>searchParams\<close> object. The parser itself, \<open>new URL(s)\<close>, is a
  parameter of the model: a function that gives \<open>None\<close> where the constructor throws.
\<close>

record url =
  prefix :: string
  path :: string
  opaque_path :: bool
  query :: "string option"
  fragment :: "string option"
  searchParams :: "(string \<times> string) list"

text \<open>
  The application/x-www-form-urlencoded serialiser of the URL standard: each name and
  value is UTF-8 encoded, a space becomes \<open>+\<close>, every byte other than an ASCII letter, a
  digit, \<open>*\<close>, \<open>-\<close>, \<open>.\<close> and \<open>_\<close> becomes \<open>%XX\<close>, and the pairs are joined by \<open>&\<close>.
\<close>

definition utf8 :: "char \<Rightarrow> nat list" where
  "utf8 c =
     (let n = (of_char c :: nat)
      in if n < 128 then [n] else [192 + n div 64, 128 + n mod 64])"

definition unreserved :: "string" where
  "unreserved =
     ''ABCDEFGHIJKLMNOPQRSTUVWXYZabcdefghijklmnopqrstuvwxyz0123456789*-._''"

definition encode_byte :: "nat \<Rightarrow> string" where
  "encode_byte b =
     (if b = 32 then ''+''
      else if char_of b \<in> set unreserved then [char_of b]
      else [CHR ''%'', ''0123456789ABCDEF'' ! (b div 16), ''0123456789ABCDEF'' ! (b mod 16)])"

definition urlencode :: "string \<Rightarrow> string" where
  "urlencode s = concat (map encode_byte (concat (map utf8 s)))"

fun urlencoded :: "(string \<times> string) list \<Rightarrow> string" where
  "urlencoded [] = []"
| "urlencoded [(n, v)] = urlencode n @ ''='' @ urlencode v"
| "urlencoded ((n, v) # p # ps) = urlencode n @ ''='' @ urlencode v @ ''&'' @ urlencoded (p # ps)"

text \<open>
  The standard's step to potentially strip trailing spaces from an opaque path: when the
  URL has an opaque path and neither a fragment nor a query, the spaces (U+0020) at the end
  of the path are removed. (Where the parser already encodes such a space, as later
  revisions of the standard have it, the path ends in no space and the step changes
  nothing.)
\<close>

definition strip_trailing_spaces :: "string \<Rightarrow> string" where
  "strip_trailing_spaces p = rev (dropWhile (\<lambda>c. c = CHR 0x20) (rev p))"

definition potentially_strip :: "url \<Rightarrow> url" where
  "potentially_strip u =
     (if \<not> opaque_path u then u
      else if fragment u \<noteq> None then u
      else if query u \<noteq> None then u
      else u\<lparr>path := strip_trailing_spaces (path u)\<rparr>)"

text \<open>
  The update steps of a \<open>URLSearchParams\<close> object in the standard: the serialised list
  is written back as the query of the URL, null when it is empty; when it is null, the
  trailing spaces of an opaque path are potentially stripped.
\<close>

definition update :: "url \<Rightarrow> (string \<times> string) list \<Rightarrow> url" where
  "update u list =
     (let serializedQuery = urlencoded list;
          u' = u\<lparr>query := (if serializedQuery = [] then None else Some serializedQuery),
                 searchParams := list\<rparr>
      in if serializedQuery = [] then potentially_strip u' else u')"

text \<open>
  \<open>urlObj.searchParams.delete(name)\<close>: every pair of that name leaves the list, then
  the update steps run, whether or not a pair was removed.
\<close>

definition searchParams_delete :: "string \<Rightarrow> url \<Rightarrow> url" where
  "searchParams_delete name u = update u (filter (\<lambda>(n, v). n \<noteq> name) (searchParams u))"

text \<open>\<open>urlObj.toString()\<close>, the URL serialiser.\<close>

definition toString :: "url \<Rightarrow> string" where
  "toString u =
     prefix u @ path u
     @ (case query u of None \<Rightarrow> [] | Some q \<Rightarrow> ''?'' @ q)
     @ (case fragment u of None \<Rightarrow> [] | Some f \<Rightarrow> ''#'' @ f)"

definition paramsToRemove :: "string list" where
  "paramsToRemove =
     [''utm_source'', ''utm_medium'', ''utm_campaign'', ''utm_term'', ''utm_content'',
      ''fbclid'', ''gclid'', ''ref'', ''_ga'']"

text \<open>The function mapped over the lines.\<close>

definition clean_line :: "(string \<Rightarrow> url option) \<Rightarrow> string \<Rightarrow> string" where
  "clean_line URL line =
     (let trimmedLine = trim line
      in if trimmedLine = [] then []
         else (case URL trimmedLine of
                 Some urlObj \<Rightarrow> toString (fold searchParams_delete paramsToRemove urlObj)
               | None \<Rightarrow> trimmedLine @ '' (Invalid URL)''))"

definition processed :: "(string \<Rightarrow> url option) \<Rightarrow> string \<Rightarrow> string list" where
  "processed URL inputUrl = map (clean_line URL) (split_on CHR 0x0A inputUrl)"

definition cleanUrls :: "(string \<Rightarrow> url option) \<Rightarrow> string \<Rightarrow> string" where
  "cleanUrls URL inputUrl = join [CHR 0x0A] (processed URL inputUrl)"

text \<open>
  What the browser's parser gives on the lines of the examples below; a line outside
  this table counts as one on which the constructor throws, as it does on
  \<open>not a url\<close>, which has no scheme.
\<close>

definition example_URL :: "string \<Rightarrow> url option" where
  "example_URL s =
     (if s = ''https://a.com/x?utm_source=y&keep=1'' then
        Some \<lparr>prefix = ''https://a.com'', path = ''/x'', opaque_path = False,
              query = Some ''utm_source=y&keep=1'', fragment = None,
              searchParams = [(''utm_source'', ''y''), (''keep'', ''1'')]\<rparr>
      else if s = ''https://a.com/x?keep=1'' then
        Some \<lparr>prefix = ''https://a.com'', path = ''/x'', opaque_path = False,
              query = Some ''keep=1'', fragment = None, searchParams = [(''keep'', ''1'')]\<rparr>
      else if s = ''https://a.com/x?flag'' then
        Some \<lparr>prefix = ''https://a.com'', path = ''/x'', opaque_path = False,
              query = Some ''flag'', fragment = None, searchParams = [(''flag'', '''')]\<rparr>
      else if s = ''https://example.com/page?q=a%20b&ref=home&gclid=7#top'' then
        Some \<lparr>prefix = ''https://example.com'', path = ''/page'', opaque_path = False,
              query = Some ''q=a%20b&ref=home&gclid=7'', fragment = Some ''top'',
              searchParams = [(''q'', ''a b''), (''ref'', ''home''), (''gclid'', ''7'')]\<rparr>
      else if s = ''https://example.com/page?q=a+b#top'' then
        Some \<lparr>prefix = ''https://example.com'', path = ''/page'', opaque_path = False,
              query = Some ''q=a+b'', fragment = Some ''top'', searchParams = [(''q'', ''a b'')]\<rparr>
      else None)"


section \<open>WordCounter.stats\<close>

text \<open>
  \<open>s.split(re)\<close> for a regular expression without capture groups, after the steps of
  \<open>RegExp.prototype[Symbol.split]\<close>. The expression is given by its matcher \<open>m\<close>: on
  the rest of the string from the position tried, the length of the match that starts
  there, if there is one. In \<open>split_loop\<close>, \<open>seg\<close> is the text from the end of the last
  match (index \<open>p\<close>) to the position tried (index \<open>q\<close>) and \<open>rest\<close> the string from \<open>q\<close>.
\<close>

function split_loop :: "(string \<Rightarrow> nat option) \<Rightarrow> string \<Rightarrow> string \<Rightarrow> string list" where
  "split_loop m seg rest =
     (if rest = [] then [seg]
      else (case m rest of
              None \<Rightarrow> split_loop m (seg @ [hd rest]) (tl rest)
            | Some n \<Rightarrow>
                if n = 0 \<and> seg = [] then split_loop m (seg @ [hd rest]) (tl rest)
                else seg # split_loop m [] (drop n rest)))"
  by pat_completeness auto
termination
  by (relation "measure (\<lambda>(m, seg, rest). 2 * length rest + (if seg = [] then 0 else 1))")
     (auto simp: neq_Nil_conv)

declare split_loop.simps [simp del]

definition split_re :: "(string \<Rightarrow> nat option) \<Rightarrow> string \<Rightarrow> string list" where
  "split_re m s =
     (if s = [] then (case m [] of Some n \<Rightarrow> [] | None \<Rightarrow> [s])
      else split_loop m [] s)"

text \<open>The matcher of \<open>/\s+/\<close>: the whole run of white space at the position, if not empty.\<close>

definition re_spaces :: "string \<Rightarrow> nat option" where
  "re_spaces s =
     (let run = takeWhile is_space s in if run = [] then None else Some (length run))"

text \<open>
  The matcher of \<open>/\n\s*\n/\<close>: a line feed, then the run of white space that follows it,
  given back character by character until it ends in a line feed; that is, the run up to
  its last line feed.
\<close>

definition re_blank :: "string \<Rightarrow> nat option" where
  "re_blank s =
     (case s of
        [] \<Rightarrow> None
      | c # cs \<Rightarrow>
          if c \<noteq> CHR 0x0A then None
          else (let upto = dropWhile (\<lambda>d. d \<noteq> CHR 0x0A) (rev (takeWhile is_space cs))
                in if upto = [] then None else Some (1 + length upto)))"

text \<open>\<open>Math.ceil(n / 200)\<close> for a length \<open>n\<close>.\<close>

definition ceil_div_200 :: "nat \<Rightarrow> nat" where
  "ceil_div_200 n = (n + 199) div 200"

record stats =
  words :: nat
  chars :: nat
  charsNoSpace :: nat
  paragraphs :: nat
  readTime :: string

definition stats :: "string \<Rightarrow> stats" where
  "stats text =
     \<lparr>words = (if trim text = [] then 0 else length (split_re re_spaces (trim text))),
      chars = length text,
      charsNoSpace = length (filter (\<lambda>c. \<not> is_space c) text),
      paragraphs = (if trim text = [] then 0 else length (split_re re_blank (trim text))),
      readTime = decimal (ceil_div_200 (length (split_re re_spaces (trim text)))) @ '' min''\<rparr>"

text \<open>
  The counts in the words of the specification. A token is a maximal run of characters
  that are not white space: \<open>count_tokens\<close> counts the characters that begin one
  (\<open>after_space\<close> tells whether the character before was white space, or there was none).
  A block is a maximal group of consecutive lines that are not blank: \<open>count_blocks\<close>
  counts the lines that begin one.
\<close>

fun count_tokens :: "bool \<Rightarrow> string \<Rightarrow> nat" where
  "count_tokens after_space [] = 0"
| "count_tokens after_space (c # cs) =
     (if is_space c then count_tokens True cs
      else (if after_space then 1 else 0) + count_tokens False cs)"

definition blank :: "string \<Rightarrow> bool" where
  "blank l = (filter (\<lambda>c. \<not> is_space c) l = [])"

fun count_blocks :: "bool \<Rightarrow> string list \<Rightarrow> nat" where
  "count_blocks after_blank [] = 0"
| "count_blocks after_blank (l # ls) =
     (if blank l then count_blocks True ls
      else (if after_blank then 1 else 0) + count_blocks False ls)"

definition spec_words :: "string \<Rightarrow> nat" where
  "spec_words text = (if trim text = [] then 0 else count_tokens True (trim text))"

definition spec_paragraphs :: "string \<Rightarrow> nat" where
  "spec_paragraphs text =
     (if trim text = [] then 0 else count_blocks True (split_on CHR 0x0A (trim text)))"

text \<open>The number of matches that \<open>split_loop\<close> finds from a position.\<close>

fun matches :: "(string \<Rightarrow> nat option) \<Rightarrow> string \<Rightarrow> nat" where
  "matches m [] = 0"
| "matches m (c # cs) =
     (case m (c # cs) of
        None \<Rightarrow> matches m cs
      | Some n \<Rightarrow> Suc (matches m (drop (n - 1) cs)))"

section \<open>The retry loop\<close>

lemma try_body_retryable:
  assumes "retryable oc"
  shows "try_body oc = Inl (retry_error oc)"
proof (cases oc)
  case (Rejects e)
  then show ?thesis by (simp add: try_body_def retry_error_def)
next
  case (Resolves r)
  with assms have "status r = 429 \<or> status r \<ge> 500"
    by (simp add: retryable_def)
  then have "\<not> ok r" by (auto simp: ok_def)
  with Resolves \<open>status r = 429 \<or> status r \<ge> 500\<close> show ?thesis
    by (simp add: try_body_def retry_error_def)
qed

lemma for_loop_returns:
  assumes "try_body (fetch (attempts t)) = Inr v" and "i \<le> length delays"
  shows "for_loop fetch i t = (Inr (Some v), t\<lparr>attempts := attempts t + 1\<rparr>)"
  using assms by (simp add: for_loop.simps)

lemma for_loop_rethrows:
  assumes "try_body (fetch (attempts t)) = Inl e" and "i = length delays"
  shows "for_loop fetch i t = (Inl e, t\<lparr>attempts := attempts t + 1\<rparr>)"
  using assms by (simp add: for_loop.simps)

lemma for_loop_sleeps:
  assumes "try_body (fetch (attempts t)) = Inl e" and "i < length delays"
  shows "for_loop fetch i t =
           for_loop fetch (i + 1)
             (t\<lparr>attempts := attempts t + 1, sleeps := sleeps t @ [delays ! i]\<rparr>)"
  using assms by (subst for_loop.simps) simp

text \<open>After \<open>m\<close> failing attempts from index \<open>i\<close>, the loop is at index \<open>i + m\<close>.\<close>

lemma for_loop_skip:
  assumes "\<forall>j<m. \<exists>e. try_body (fetch (attempts t + j)) = Inl e"
    and "i + m \<le> length delays"
  shows "for_loop fetch i t =
           for_loop fetch (i + m)
             (t\<lparr>attempts := attempts t + m, sleeps := sleeps t @ take m (drop i delays)\<rparr>)"
  using assms
proof (induction m arbitrary: i t)
  case 0
  then show ?case by simp
next
  case (Suc m)
  from Suc.prems(1) obtain e where e: "try_body (fetch (attempts t)) = Inl e"
    by force
  from Suc.prems(2) have i: "i < length delays" by simp
  let ?t = "t\<lparr>attempts := attempts t + 1, sleeps := sleeps t @ [delays ! i]\<rparr>"
  have step: "for_loop fetch i t = for_loop fetch (i + 1) ?t"
    using e i by (rule for_loop_sleeps)
  have "\<forall>j<m. \<exists>e. try_body (fetch (attempts ?t + j)) = Inl e"
  proof (intro allI impI)
    fix j assume "j < m"
    then have "Suc j < Suc m" by simp
    with Suc.prems(1) have "\<exists>e. try_body (fetch (attempts t + Suc j)) = Inl e" by blast
    then show "\<exists>e. try_body (fetch (attempts ?t + j)) = Inl e" by simp
  qed
  moreover have "(i + 1) + m \<le> length delays" using Suc.prems(2) by simp
  ultimately have "for_loop fetch (i + 1) ?t =
      for_loop fetch ((i + 1) + m)
        (?t\<lparr>attempts := attempts ?t + m, sleeps := sleeps ?t @ take m (drop (i + 1) delays)\<rparr>)"
    by (rule Suc.IH)
  moreover have "take (Suc m) (drop i delays) = delays ! i # take m (drop (i + 1) delays)"
    using i by (simp add: Cons_nth_drop_Suc [symmetric])
  ultimately show ?case using step by simp
qed

lemma generateContent_skip:
  assumes "\<forall>j<m. \<exists>e. try_body (fetch j) = Inl e" and "m \<le> length delays"
  shows "generateContent fetch =
           for_loop fetch m \<lparr>attempts = m, sleeps = take m delays\<rparr>"
  using for_loop_skip [of m fetch "\<lparr>attempts = 0, sleeps = []\<rparr>" 0] assms
  by (simp add: generateContent_def)

lemma try_body_success:
  assumes "ok r" and "body r = Inr data" and "data \<noteq> JNull"
  shows "try_body (Resolves r) =
           Inr (or_else (first_text data) (JStr ''No response generated.''))"
  using assms by (cases data) (simp_all add: try_body_def member_def)

text \<open>A body that is \<open>null\<close> makes the attempt throw, and the \<open>catch\<close> takes it.\<close>

lemma try_body_null:
  assumes "ok r" and "body r = Inr JNull"
  shows "try_body (Resolves r) = Inl (TypeError ''candidates'')"
  using assms by (simp add: try_body_def member_def)

lemma generateContent_first_returns:
  assumes "try_body (fetch 0) = Inr v"
  shows "generateContent fetch = (Inr (Some v), \<lparr>attempts = 1, sleeps = []\<rparr>)"
  using for_loop_returns [of fetch "\<lparr>attempts = 0, sleeps = []\<rparr>" v 0] assms
  by (simp add: generateContent_def)

lemma first_text_reply: "first_text (reply_with_text t) = Some t"
  by (simp add: first_text_def reply_with_text_def opt_member_def opt_index0_def)

lemma first_text_JNull: "first_text JNull = None"
  by (simp add: first_text_def opt_member_def opt_index0_def)

section \<open>Claims about generateContent\<close>

text \<open>
  C1 says that a first attempt answered by a status that is neither a success nor 429 nor
  500 or above (HTTP 400, say) ends the invocation: one attempt, no sleep, the failure
  returned at once. The program throws that failure inside the \<open>try\<close> block, so its own
  \<open>catch\<close> takes it, sleeps and tries again. Evaluated on an endpoint that answers 400 to
  every call: six attempts, five sleeps, and only then the failure.
\<close>

theorem bad_request_is_retried:
  "generateContent
     (\<lambda>n. Resolves \<lparr>status = 400,
            body = Inr (JObj [(''error'', JObj [(''message'', JStr ''Bad Request'')])])\<rparr>)
   = (Inl (Error (JStr ''Bad Request'')),
      \<lparr>attempts = 6, sleeps = [1000, 2000, 4000, 8000, 16000]\<rparr>)"
  by (simp add: generateContent_def for_loop.simps try_body_def ok_def member_def
        opt_member_def or_else_def delays_def)

text \<open>
  C2 says that a success at attempt \<open>k + 1\<close> ends the invocation with \<open>k + 1\<close> attempts
  and \<open>k\<close> sleeps. It fails for \<open>k = 0\<close> where the first response has a status in the
  success range and a body that cannot be read as JSON: \<open>response.json()\<close> rejects inside
  the \<open>try\<close> block, the \<open>catch\<close> takes the exception as it takes any other, and the
  invocation sleeps and makes a second attempt.
\<close>

theorem unreadable_success_body_is_retried:
  "ok \<lparr>status = 200, body = Inl (Thrown ''SyntaxError'' ''Unexpected end of JSON input'')\<rparr>
   \<and> generateContent
       (\<lambda>n. if n = 0
             then Resolves \<lparr>status = 200,
                             body = Inl (Thrown ''SyntaxError'' ''Unexpected end of JSON input'')\<rparr>
             else Resolves \<lparr>status = 200, body = Inr (reply_with_text (JStr ''Hello''))\<rparr>)
     = (Inr (Some (JStr ''Hello'')), \<lparr>attempts = 2, sleeps = [1000]\<rparr>)"
proof -
  have bad: "try_body (Resolves \<lparr>status = 200,
      body = Inl (Thrown ''SyntaxError'' ''Unexpected end of JSON input'')\<rparr>) =
      Inl (Thrown ''SyntaxError'' ''Unexpected end of JSON input'')"
    by (simp add: try_body_def ok_def)
  have "reply_with_text (JStr ''Hello'') \<noteq> JNull"
    by (simp add: reply_with_text_def)
  then have good: "try_body (Resolves \<lparr>status = 200,
      body = Inr (reply_with_text (JStr ''Hello''))\<rparr>) = Inr (JStr ''Hello'')"
    by (simp add: try_body_success ok_def first_text_reply or_else_def)
  show ?thesis
    by (simp add: generateContent_def for_loop.simps delays_def bad good ok_def)
qed

text \<open>
  C2 as amended: for every \<open>k\<close> from 0 to 5, when the first \<open>k\<close> attempts end in a
  retryable outcome (status 429, status 500 or above, or an exception of \<open>fetch\<close>) and the
  next attempt is answered by a status from 200 to 299 with a body that parses as a JSON
  value other than null, the invocation makes \<open>k + 1\<close> attempts, sleeps \<open>k\<close> times, for
  the first \<open>k\<close> of the delays 1000, 2000, 4000, 8000, 16000 in that order, and returns the
  value of the success.
\<close>

theorem retry_then_success:
  assumes "k \<le> 5"
    and "\<forall>j<k. retryable (fetch j)"
    and "fetch k = Resolves r" and "ok r" and "body r = Inr data" and "data \<noteq> JNull"
  shows "generateContent fetch =
           (Inr (Some (or_else (first_text data) (JStr ''No response generated.''))),
            \<lparr>attempts = k + 1, sleeps = take k [1000, 2000, 4000, 8000, 16000]\<rparr>)"
proof -
  have fails: "\<forall>j<k. \<exists>e. try_body (fetch j) = Inl e"
    using assms(2) try_body_retryable by blast
  have k: "k \<le> length delays" using assms(1) by (simp add: delays_def)
  have "generateContent fetch = for_loop fetch k \<lparr>attempts = k, sleeps = take k delays\<rparr>"
    using fails k by (rule generateContent_skip)
  moreover have "try_body (fetch (attempts \<lparr>attempts = k, sleeps = take k delays\<rparr>)) =
      Inr (or_else (first_text data) (JStr ''No response generated.''))"
    using try_body_success [OF assms(4,5,6)] assms(3) by simp
  ultimately show ?thesis
    using for_loop_returns [OF _ k] by (simp add: delays_def)
qed

theorem retry_then_success_witness:
  "generateContent
     (\<lambda>n. if n = 0 then Resolves \<lparr>status = 429, body = Inl (Thrown ''SyntaxError'' ''Unexpected token'')\<rparr>
          else if n = 1 then Rejects (Thrown ''TypeError'' ''Failed to fetch'')
          else Resolves \<lparr>status = 200, body = Inr (reply_with_text (JStr ''Hello''))\<rparr>)
   = (Inr (Some (JStr ''Hello'')), \<lparr>attempts = 3, sleeps = [1000, 2000]\<rparr>)"
  using retry_then_success [of 2
     "(\<lambda>n. if n = 0 then Resolves \<lparr>status = 429, body = Inl (Thrown ''SyntaxError'' ''Unexpected token'')\<rparr>
          else if n = 1 then Rejects (Thrown ''TypeError'' ''Failed to fetch'')
          else Resolves \<lparr>status = 200, body = Inr (reply_with_text (JStr ''Hello''))\<rparr>)"
     "\<lparr>status = 200, body = Inr (reply_with_text (JStr ''Hello''))\<rparr>"
     "reply_with_text (JStr ''Hello'')"]
  by (simp add: retryable_def ok_def first_text_reply or_else_def less_Suc_eq numeral_2_eq_2)
     (simp add: reply_with_text_def)

text \<open>
  C3: when all six attempts end in a retryable outcome, the invocation makes six attempts
  and no seventh, sleeps five times, for the delays 1000, 2000, 4000, 8000, 16000 in that
  order, and throws the error of the sixth attempt: the exception \<open>fetch\<close> rejected with,
  or the error with the message \<open>API Error: \<close> followed by the status.
\<close>

theorem retries_exhausted:
  assumes "\<forall>j\<le>5. retryable (fetch j)"
  shows "generateContent fetch =
           (Inl (case fetch 5 of
                   Rejects e \<Rightarrow> e
                 | Resolves r \<Rightarrow> Error (JStr (''API Error: '' @ decimal (status r)))),
            \<lparr>attempts = 6, sleeps = [1000, 2000, 4000, 8000, 16000]\<rparr>)"
proof -
  have fails: "\<forall>j<5. \<exists>e. try_body (fetch j) = Inl e"
    using assms try_body_retryable by (metis less_imp_le)
  have "generateContent fetch = for_loop fetch 5 \<lparr>attempts = 5, sleeps = take 5 delays\<rparr>"
    using fails by (rule generateContent_skip) (simp add: delays_def)
  also have "\<dots> = (Inl (retry_error (fetch 5)),
      \<lparr>attempts = 5, sleeps = take 5 delays\<rparr>
        \<lparr>attempts := attempts \<lparr>attempts = 5, sleeps = take 5 delays\<rparr> + 1\<rparr>)"
  proof (rule for_loop_rethrows)
    show "try_body (fetch (attempts \<lparr>attempts = 5, sleeps = take 5 delays\<rparr>)) =
        Inl (retry_error (fetch 5))"
      using assms try_body_retryable by simp
    show "5 = length delays" by (simp add: delays_def)
  qed
  finally show ?thesis
    by (simp add: delays_def retry_error_def)
qed

theorem retries_exhausted_witness:
  "generateContent
     (\<lambda>n. if n < 3 then Rejects (Thrown ''TypeError'' ''Failed to fetch'')
          else Resolves \<lparr>status = 503, body = Inr JNull\<rparr>)
   = (Inl (Error (JStr ''API Error: 503'')),
      \<lparr>attempts = 6, sleeps = [1000, 2000, 4000, 8000, 16000]\<rparr>)"
  using retries_exhausted [of
     "(\<lambda>n. if n < 3 then Rejects (Thrown ''TypeError'' ''Failed to fetch'')
          else Resolves \<lparr>status = 503, body = Inr JNull\<rparr>)"]
  by (simp add: retryable_def decimal.simps)

text \<open>
  C4 says that a success returns the text of the first part of the first candidate, and
  the fallback only where that path is absent. It fails where the text is there and is the
  empty string: the program returns the fallback.
\<close>

theorem present_empty_text_not_returned:
  "first_text (reply_with_text (JStr '''')) = Some (JStr '''')
   \<and> fst (generateContent (\<lambda>n. Resolves \<lparr>status = 200, body = Inr (reply_with_text (JStr ''''))\<rparr>))
       \<noteq> Inr (Some (JStr ''''))"
proof -
  have "reply_with_text (JStr []) \<noteq> JNull"
    by (simp add: reply_with_text_def)
  then have "try_body (Resolves \<lparr>status = 200, body = Inr (reply_with_text (JStr []))\<rparr>) =
      Inr (JStr ''No response generated.'')"
    by (simp add: try_body_success ok_def first_text_reply or_else_def)
  then show ?thesis
    by (simp add: generateContent_first_returns first_text_reply)
qed

text \<open>
  C4 as amended: on a first attempt answered by a status from 200 to 299 whose body is a
  JSON value other than null, the invocation makes that one attempt, does not sleep, and
  returns the text of the first part of the first candidate when that value is truthy;
  when the path is absent or the value there is falsy (the empty string, say), it returns
  the string \<open>No response generated.\<close>, as a value and not as an error.
\<close>

theorem success_returns_text_or_fallback:
  assumes "fetch 0 = Resolves r" and "ok r" and "body r = Inr data" and "data \<noteq> JNull"
  shows "(\<forall>t. first_text data = Some t \<and> truthy t \<longrightarrow>
            fst (generateContent fetch) = Inr (Some t))
       \<and> (first_text data = None \<or> (\<exists>t. first_text data = Some t \<and> \<not> truthy t) \<longrightarrow>
            fst (generateContent fetch) = Inr (Some (JStr ''No response generated.'')))
       \<and> snd (generateContent fetch) = \<lparr>attempts = 1, sleeps = []\<rparr>"
proof -
  have "try_body (fetch 0) = Inr (or_else (first_text data) (JStr ''No response generated.''))"
    using try_body_success [OF assms(2,3,4)] assms(1) by simp
  then have "generateContent fetch =
      (Inr (Some (or_else (first_text data) (JStr ''No response generated.''))),
       \<lparr>attempts = 1, sleeps = []\<rparr>)"
    by (rule generateContent_first_returns)
  then show ?thesis by (auto simp: or_else_def)
qed

theorem success_returns_text_or_fallback_witness:
  "generateContent (\<lambda>n. Resolves \<lparr>status = 200, body = Inr (reply_with_text (JStr ''Hello''))\<rparr>)
     = (Inr (Some (JStr ''Hello'')), \<lparr>attempts = 1, sleeps = []\<rparr>)
   \<and> generateContent (\<lambda>n. Resolves \<lparr>status = 200, body = Inr (JObj [(''candidates'', JArr [])])\<rparr>)
     = (Inr (Some (JStr ''No response generated.'')), \<lparr>attempts = 1, sleeps = []\<rparr>)"
proof
  have "first_text (reply_with_text (JStr ''Hello'')) = Some (JStr ''Hello'')"
    by (rule first_text_reply)
  then show "generateContent
       (\<lambda>n. Resolves \<lparr>status = 200, body = Inr (reply_with_text (JStr ''Hello''))\<rparr>)
     = (Inr (Some (JStr ''Hello'')), \<lparr>attempts = 1, sleeps = []\<rparr>)"
    using success_returns_text_or_fallback [of
        "\<lambda>n. Resolves \<lparr>status = 200, body = Inr (reply_with_text (JStr ''Hello''))\<rparr>"
        "\<lparr>status = 200, body = Inr (reply_with_text (JStr ''Hello''))\<rparr>"
        "reply_with_text (JStr ''Hello'')"]
    by (simp add: ok_def prod_eq_iff) (simp add: reply_with_text_def)
next
  have "first_text (JObj [(''candidates'', JArr [])]) = None"
    by (simp add: first_text_def opt_member_def opt_index0_def)
  then show "generateContent
       (\<lambda>n. Resolves \<lparr>status = 200, body = Inr (JObj [(''candidates'', JArr [])])\<rparr>)
     = (Inr (Some (JStr ''No response generated.'')), \<lparr>attempts = 1, sleeps = []\<rparr>)"
    using success_returns_text_or_fallback [of
        "\<lambda>n. Resolves \<lparr>status = 200, body = Inr (JObj [(''candidates'', JArr [])])\<rparr>"
        "\<lparr>status = 200, body = Inr (JObj [(''candidates'', JArr [])])\<rparr>"
        "JObj [(''candidates'', JArr [])]"]
    by (simp add: ok_def prod_eq_iff)
qed

text \<open>
  C10: when a success carries the path and the text there is the empty string, the
  invocation returns the string \<open>No response generated.\<close> and not the empty string.
\<close>

theorem empty_text_returns_fallback:
  assumes "fetch 0 = Resolves r" and "ok r" and "body r = Inr data"
    and "first_text data = Some (JStr '''')"
  shows "generateContent fetch =
           (Inr (Some (JStr ''No response generated.'')), \<lparr>attempts = 1, sleeps = []\<rparr>)"
proof -
  have "data \<noteq> JNull" using assms(4) first_text_JNull by auto
  then have "try_body (fetch 0) =
      Inr (or_else (first_text data) (JStr ''No response generated.''))"
    using try_body_success [OF assms(2,3)] assms(1) by simp
  then have "try_body (fetch 0) = Inr (JStr ''No response generated.'')"
    using assms(4) by (simp add: or_else_def)
  then show ?thesis by (rule generateContent_first_returns)
qed

theorem empty_text_returns_fallback_witness:
  "generateContent (\<lambda>n. Resolves \<lparr>status = 201, body = Inr (reply_with_text (JStr ''''))\<rparr>)
     = (Inr (Some (JStr ''No response generated.'')), \<lparr>attempts = 1, sleeps = []\<rparr>)"
  using empty_text_returns_fallback [of
      "\<lambda>n. Resolves \<lparr>status = 201, body = Inr (reply_with_text (JStr ''''))\<rparr>"
      "\<lparr>status = 201, body = Inr (reply_with_text (JStr ''''))\<rparr>"
      "reply_with_text (JStr '''')"]
  by (simp add: ok_def first_text_reply)

section \<open>The cleaner\<close>

lemma strip_trailing_spaces_idem:
  "strip_trailing_spaces (strip_trailing_spaces p) = strip_trailing_spaces p"
  by (simp add: strip_trailing_spaces_def)

lemma urlencoded_empty: "urlencoded l = [] \<longleftrightarrow> l = []"
  by (cases l rule: urlencoded.cases) simp_all

text \<open>The path of a URL after the update steps have run with the list \<open>l\<close>.\<close>

lemma update_fields:
  "prefix (update u l) = prefix u"
  "opaque_path (update u l) = opaque_path u"
  "fragment (update u l) = fragment u"
  "searchParams (update u l) = l"
  "query (update u l) = (if l = [] then None else Some (urlencoded l))"
  "path (update u l) =
     (if opaque_path u \<and> l = [] \<and> fragment u = None then strip_trailing_spaces (path u)
      else path u)"
  by (simp_all add: update_def potentially_strip_def Let_def urlencoded_empty)

lemma update_eq:
  "update u l =
     u\<lparr>path := (if opaque_path u \<and> l = [] \<and> fragment u = None
                 then strip_trailing_spaces (path u) else path u),
       query := (if l = [] then None else Some (urlencoded l)),
       searchParams := l\<rparr>"
  by (simp add: update_def potentially_strip_def Let_def urlencoded_empty)

lemma update_update_filter: "update (update u l) (filter P l) = update u (filter P l)"
proof (cases "l = []")
  case True
  then show ?thesis by (simp add: update_eq strip_trailing_spaces_idem)
next
  case False
  then show ?thesis by (simp add: update_eq)
qed

lemma filter_names:
  "filter (\<lambda>(n, v). n \<notin> set names) (filter (\<lambda>(n, v). n \<noteq> name) l) =
     filter (\<lambda>(n, v). n \<notin> set (name # names)) (l :: (string \<times> string) list)"
  by (induction l) auto

lemma fold_delete_update:
  "fold searchParams_delete names (update u l) =
     update u (filter (\<lambda>(n, v). n \<notin> set names) l)"
proof (induction names arbitrary: l)
  case Nil
  then show ?case by simp
next
  case (Cons name names)
  have "searchParams_delete name (update u l) = update u (filter (\<lambda>(n, v). n \<noteq> name) l)"
    by (simp add: searchParams_delete_def update_fields update_update_filter)
  then show ?case using Cons.IH [of "filter (\<lambda>(n, v). n \<noteq> name) l"]
    by (simp only: fold_simps filter_names)
qed

lemma fold_delete:
  assumes "names \<noteq> []"
  shows "fold searchParams_delete names u =
     update u (filter (\<lambda>(n, v). n \<notin> set names) (searchParams u))"
proof -
  from assms obtain name rest where names: "names = name # rest"
    by (cases names) auto
  have "fold searchParams_delete names u =
      fold searchParams_delete rest (update u (filter (\<lambda>(n, v). n \<noteq> name) (searchParams u)))"
    by (simp add: names searchParams_delete_def)
  also have "\<dots> = update u (filter (\<lambda>(n, v). n \<notin> set rest)
      (filter (\<lambda>(n, v). n \<noteq> name) (searchParams u)))"
    by (rule fold_delete_update)
  also have "filter (\<lambda>(n, v). n \<notin> set rest) (filter (\<lambda>(n, v). n \<noteq> name) (searchParams u)) =
      filter (\<lambda>(n, v). n \<notin> set names) (searchParams u)"
    unfolding names by (rule filter_names)
  finally show ?thesis .
qed

lemma toString_update:
  "toString (update u l) =
     prefix u
     @ (if opaque_path u \<and> l = [] \<and> fragment u = None then strip_trailing_spaces (path u)
        else path u)
     @ (if l = [] then [] else ''?'' @ urlencoded l)
     @ (case fragment u of None \<Rightarrow> [] | Some f \<Rightarrow> ''#'' @ f)"
  by (simp add: toString_def update_fields)

lemma clean_line_valid:
  assumes "trim line \<noteq> []" and "URL (trim line) = Some u"
  shows "clean_line URL line =
     toString (update u (filter (\<lambda>(n, v). n \<notin> set paramsToRemove) (searchParams u)))"
proof -
  have "paramsToRemove \<noteq> []" by (simp add: paramsToRemove_def)
  then show ?thesis using assms by (simp add: clean_line_def fold_delete)
qed

text \<open>
  On a URL with an opaque path the last tracked parameter takes the spaces before the
  query with it; a parameter that stays keeps them.
\<close>

lemma opaque_path_examples:
  "toString (fold searchParams_delete paramsToRemove
      \<lparr>prefix = ''foo:'', path = ''bar '', opaque_path = True, query = Some ''ref=1'',
       fragment = None, searchParams = [(''ref'', ''1'')]\<rparr>) = ''foo:bar''"
  "toString (fold searchParams_delete paramsToRemove
      \<lparr>prefix = ''foo:'', path = ''bar '', opaque_path = True, query = Some ''ref=1'',
       fragment = Some ''f'', searchParams = [(''ref'', ''1'')]\<rparr>) = ''foo:bar #f''"
  "toString (fold searchParams_delete paramsToRemove
      \<lparr>prefix = ''foo:'', path = ''bar '', opaque_path = True, query = Some ''keep=1&ref=1'',
       fragment = None, searchParams = [(''keep'', ''1''), (''ref'', ''1'')]\<rparr>) = ''foo:bar ?keep=1''"
  by code_simp+

section \<open>Claims about cleanUrls\<close>

text \<open>
  C5: for every line whose trimmed text the URL parser accepts, the cleaner removes
  exactly the query parameters named utm_source, utm_medium, utm_campaign, utm_term,
  utm_content, fbclid, gclid, ref or _ga and serialises the URL with the parameters that
  remain, in their original order: scheme, authority, path and fragment as parsed, the
  query written from the remaining parameters and absent when none remains; the one
  change outside the query is that of the update steps, which strip the trailing spaces of
  an opaque path when neither a parameter nor a fragment remains. The example of the
  specification, \<open>https://a.com/x?utm_source=y&keep=1\<close>, is the witness: it gives
  \<open>https://a.com/x?keep=1\<close>.
\<close>

theorem tracking_parameters_removed:
  assumes "trim line \<noteq> []" and "URL (trim line) = Some u"
  shows "clean_line URL line =
     (let kept = filter (\<lambda>(n, v). n \<notin> {''utm_source'', ''utm_medium'', ''utm_campaign'',
                    ''utm_term'', ''utm_content'', ''fbclid'', ''gclid'', ''ref'', ''_ga''})
                  (searchParams u)
      in prefix u
         @ (if opaque_path u \<and> kept = [] \<and> fragment u = None
            then strip_trailing_spaces (path u) else path u)
         @ (if kept = [] then [] else ''?'' @ urlencoded kept)
         @ (case fragment u of None \<Rightarrow> [] | Some f \<Rightarrow> ''#'' @ f))"
proof -
  have "set paramsToRemove = {''utm_source'', ''utm_medium'', ''utm_campaign'',
      ''utm_term'', ''utm_content'', ''fbclid'', ''gclid'', ''ref'', ''_ga''}"
    by (simp add: paramsToRemove_def)
  then show ?thesis
    using clean_line_valid [of line URL u] assms
    by (simp add: toString_update Let_def)
qed

text \<open>The example of the specification, with the parse the browser gives for it.\<close>

lemma trim_example1: "trim ''https://a.com/x?utm_source=y&keep=1'' = ''https://a.com/x?utm_source=y&keep=1''"
  by (simp add: trim_def is_space_def)

lemma enc_keep: "urlencoded [(''keep'', ''1'')] = ''keep=1''"
  by code_simp

theorem tracking_parameters_removed_witness:
  "clean_line example_URL ''https://a.com/x?utm_source=y&keep=1'' = ''https://a.com/x?keep=1''"
  using tracking_parameters_removed [of "''https://a.com/x?utm_source=y&keep=1''" example_URL
     "\<lparr>prefix = ''https://a.com'', path = ''/x'', opaque_path = False,
              query = Some ''utm_source=y&keep=1'', fragment = None,
              searchParams = [(''utm_source'', ''y''), (''keep'', ''1'')]\<rparr>"]
  by (simp add: trim_example1 example_URL_def enc_keep del: urlencoded.simps)

text \<open>
  C6 says that a line that is not blank and is not a URL goes through unchanged, with
  the marker appended. It fails on a line with white space before or after the text: the
  program appends the marker to the trimmed line.
\<close>

theorem invalid_line_is_trimmed:
  "example_URL (trim ''  not a url'') = None
   \<and> cleanUrls example_URL ''  not a url'' \<noteq> ''  not a url'' @ '' (Invalid URL)''"
  by code_simp

lemma processed_nth:
  assumes "i < length (split_on CHR 0x0A inputUrl)"
  shows "processed URL inputUrl ! i = clean_line URL (split_on CHR 0x0A inputUrl ! i)"
  using assms by (simp add: processed_def)

text \<open>
  C6 as amended: for every line of the input that is not blank and whose trimmed text
  the URL parser rejects, the output line is the trimmed line followed by the marker
  \<open> (Invalid URL)\<close>; for every blank line the output line is empty.
\<close>

theorem invalid_line_marked:
  assumes "i < length (split_on CHR 0x0A inputUrl)"
  shows "(let line = split_on CHR 0x0A inputUrl ! i
          in (trim line \<noteq> [] \<and> URL (trim line) = None \<longrightarrow>
                processed URL inputUrl ! i = trim line @ '' (Invalid URL)'')
           \<and> (trim line = [] \<longrightarrow> processed URL inputUrl ! i = []))"
  using processed_nth [OF assms, of URL] by (simp add: clean_line_def Let_def)

lemma split_example:
  "split_on CHR 0x0A (''  not a url'' @ [CHR 0x0A] @ '' '' @ [CHR 0x0A] @ ''x'') =
     [''  not a url'', '' '', ''x'']"
  by code_simp

theorem invalid_line_marked_witness:
  "processed example_URL (''  not a url'' @ [CHR 0x0A] @ '' '' @ [CHR 0x0A] @ ''x'') ! 0
     = ''not a url (Invalid URL)''
   \<and> processed example_URL (''  not a url'' @ [CHR 0x0A] @ '' '' @ [CHR 0x0A] @ ''x'') ! 1 = []"
proof
  have t: "trim ''  not a url'' = ''not a url''" by code_simp
  have "example_URL ''not a url'' = None" by code_simp
  with t show "processed example_URL
      (''  not a url'' @ [CHR 0x0A] @ '' '' @ [CHR 0x0A] @ ''x'') ! 0 = ''not a url (Invalid URL)''"
    using invalid_line_marked [of 0 "''  not a url'' @ [CHR 0x0A] @ '' '' @ [CHR 0x0A] @ ''x''" example_URL]
    unfolding split_example by (simp del: append.simps)
next
  have t: "trim '' '' = []" by code_simp
  then show "processed example_URL
      (''  not a url'' @ [CHR 0x0A] @ '' '' @ [CHR 0x0A] @ ''x'') ! 1 = []"
    using invalid_line_marked [of 1 "''  not a url'' @ [CHR 0x0A] @ '' '' @ [CHR 0x0A] @ ''x''" example_URL]
    unfolding split_example by (simp del: append.simps)
qed




section \<open>The word counter\<close>

lemma length_split_loop:
  assumes pos: "\<And>s n. m s = Some n \<Longrightarrow> 0 < n"
  shows "length (split_loop m seg rest) = Suc (matches m rest)"
  using pos
proof (induction m seg rest rule: split_loop.induct)
  case (1 m seg rest)
  show ?case
  proof (cases rest)
    case Nil
    then show ?thesis by (simp add: split_loop.simps)
  next
    case (Cons c cs)
    show ?thesis
    proof (cases "m rest")
      case None
      have "length (split_loop m (seg @ [hd rest]) (tl rest)) = Suc (matches m (tl rest))"
        using Cons None "1.prems" by (intro "1.IH"(1)) auto
      with Cons None show ?thesis
        by (subst split_loop.simps) simp
    next
      case (Some n)
      then have n: "0 < n" using "1.prems" by blast
      have "length (split_loop m [] (drop n rest)) = Suc (matches m (drop n rest))"
        using Cons Some n "1.prems" by (intro "1.IH"(3)) auto
      moreover have "drop n rest = drop (n - 1) cs"
        using n Cons by (cases n) auto
      ultimately show ?thesis using Cons Some n
        by (subst split_loop.simps) simp
    qed
  qed
qed

lemma re_spaces_pos: "re_spaces s = Some n \<Longrightarrow> 0 < n"
  by (auto simp: re_spaces_def Let_def split: if_splits)

lemma re_blank_pos: "re_blank s = Some n \<Longrightarrow> 0 < n"
  by (auto simp: re_blank_def Let_def split: list.splits if_splits)

lemma length_split_re:
  assumes "s \<noteq> []" and "\<And>s n. m s = Some n \<Longrightarrow> 0 < n"
  shows "length (split_re m s) = Suc (matches m s)"
  using assms by (simp add: split_re_def length_split_loop)

subsection \<open>Trimmed text\<close>

lemma last_dropWhile:
  assumes "dropWhile P xs \<noteq> []"
  shows "last (dropWhile P xs) = last xs"
proof -
  have "xs = takeWhile P xs @ dropWhile P xs" by simp
  then have "last xs = last (takeWhile P xs @ dropWhile P xs)" by simp
  also have "\<dots> = last (dropWhile P xs)" using assms by (rule last_appendR)
  finally show ?thesis by simp
qed

lemma trim_ends:
  assumes "trim s \<noteq> []"
  shows "\<not> is_space (hd (trim s))" and "\<not> is_space (last (trim s))"
proof -
  let ?a = "dropWhile is_space s"
  let ?b = "dropWhile is_space (rev ?a)"
  have b: "?b \<noteq> []" using assms by (simp add: trim_def)
  have a: "?a \<noteq> []"
  proof
    assume e: "?a = []"
    have "?b = []" unfolding e by simp
    with b show False by blast
  qed
  have "\<not> is_space (hd ?b)" using b by (rule hd_dropWhile)
  then show "\<not> is_space (last (trim s))"
    using b by (simp add: trim_def last_rev)
  have "hd (trim s) = last ?b" using b by (simp add: trim_def hd_rev)
  also have "\<dots> = last (rev ?a)" using b by (rule last_dropWhile)
  also have "\<dots> = hd ?a" using a by (simp add: last_rev)
  finally show "\<not> is_space (hd (trim s))"
    using hd_dropWhile [OF a] by simp
qed

subsection \<open>Words\<close>

lemma count_tokens_dropWhile:
  "count_tokens True (dropWhile is_space s) = count_tokens True s"
  by (induction s) auto

lemma count_tokens_start:
  assumes "s \<noteq> []" and "\<not> is_space (hd s)"
  shows "count_tokens True s = Suc (count_tokens False s)"
  using assms by (cases s) auto

lemma matches_spaces:
  assumes "s \<noteq> [] \<longrightarrow> \<not> is_space (last s)"
  shows "matches re_spaces s = count_tokens False s"
  using assms
proof (induction "length s" arbitrary: s rule: less_induct)
  case less
  show ?case
  proof (cases s)
    case Nil
    then show ?thesis by simp
  next
    case (Cons c cs)
    show ?thesis
    proof (cases "is_space c")
      case False
      have "matches re_spaces cs = count_tokens False cs"
        using less.prems Cons by (intro less.hyps) auto
      with False Cons show ?thesis by (simp add: re_spaces_def)
    next
      case True
      let ?t = "dropWhile is_space cs"
      have cs: "cs \<noteq> []" using less.prems Cons True by auto
      then have lastcs: "\<not> is_space (last cs)" using less.prems Cons by auto
      have t: "?t \<noteq> []"
      proof
        assume "?t = []"
        then have "\<forall>x\<in>set cs. is_space x" by simp
        with cs lastcs show False using last_in_set by blast
      qed
      have "last ?t = last cs" using t by (rule last_dropWhile)
      with lastcs have "?t \<noteq> [] \<longrightarrow> \<not> is_space (last ?t)" by simp
      moreover have "length ?t < length s"
        using Cons length_dropWhile_le [of is_space cs] by simp
      ultimately have IH: "matches re_spaces ?t = count_tokens False ?t"
        using less.hyps by blast
      have "re_spaces (c # cs) = Some (Suc (length (takeWhile is_space cs)))"
        using True by (simp add: re_spaces_def)
      moreover have "drop (length (takeWhile is_space cs)) cs = ?t"
        by (simp add: dropWhile_eq_drop)
      ultimately have "matches re_spaces s = Suc (matches re_spaces ?t)"
        using Cons by simp
      also have "\<dots> = Suc (count_tokens False ?t)" using IH by simp
      also have "\<dots> = count_tokens True ?t"
        using count_tokens_start [OF t hd_dropWhile [OF t]] by simp
      also have "\<dots> = count_tokens True cs" by (rule count_tokens_dropWhile)
      also have "\<dots> = count_tokens False s" using Cons True by simp
      finally show ?thesis .
    qed
  qed
qed

lemma words_trimmed:
  assumes "trim text \<noteq> []"
  shows "length (split_re re_spaces (trim text)) = count_tokens True (trim text)"
proof -
  have "length (split_re re_spaces (trim text)) = Suc (matches re_spaces (trim text))"
    using assms re_spaces_pos by (rule length_split_re)
  also have "\<dots> = Suc (count_tokens False (trim text))"
    using trim_ends(2) [OF assms] by (simp add: matches_spaces)
  also have "\<dots> = count_tokens True (trim text)"
    using count_tokens_start [OF assms trim_ends(1) [OF assms]] by simp
  finally show ?thesis .
qed

subsection \<open>Paragraphs\<close>

lemma is_space_newline: "is_space CHR 0x0A"
  by (simp add: is_space_def)

lemma split_on_nonempty: "split_on sep s \<noteq> []"
  by (induction s) (auto split: list.splits)

lemma split_on_other:
  assumes "c \<noteq> sep"
  shows "split_on sep (c # cs) = (c # hd (split_on sep cs)) # tl (split_on sep cs)"
  using assms split_on_nonempty [of sep cs] by (cases "split_on sep cs") auto

lemma blank_Cons: "blank (c # l) = (is_space c \<and> blank l)"
  by (simp add: blank_def)

lemma count_blocks_run:
  assumes "\<forall>c\<in>set ws. is_space c" and "t \<noteq> []" and "\<not> is_space (hd t)"
  shows "count_blocks pb (split_on CHR 0x0A (ws @ t)) =
           (if pb \<or> CHR 0x0A \<in> set ws then 1 else 0)
           + count_blocks False (tl (split_on CHR 0x0A t))"
  using assms(1)
proof (induction ws arbitrary: pb)
  case Nil
  from assms(2) obtain d rest where t: "t = d # rest" by (cases t) auto
  with assms(3) have d: "\<not> is_space d" by simp
  then have "d \<noteq> CHR 0x0A" using is_space_newline by auto
  then have "split_on CHR 0x0A t =
      (d # hd (split_on CHR 0x0A rest)) # tl (split_on CHR 0x0A rest)"
    unfolding t by (rule split_on_other)
  then show ?case using d by (simp add: blank_Cons)
next
  case (Cons w ws)
  then have IH: "\<And>pb. count_blocks pb (split_on CHR 0x0A (ws @ t)) =
      (if pb \<or> CHR 0x0A \<in> set ws then 1 else 0)
      + count_blocks False (tl (split_on CHR 0x0A t))"
    by simp
  show ?case
  proof (cases "w = CHR 0x0A")
    case True
    then show ?thesis using IH [of True] by (simp add: blank_def)
  next
    case False
    have w: "is_space w" using Cons.prems by simp
    have "split_on CHR 0x0A ((w # ws) @ t) =
        (w # hd (split_on CHR 0x0A (ws @ t))) # tl (split_on CHR 0x0A (ws @ t))"
      using split_on_other [OF False, of "ws @ t"] by simp
    then have "count_blocks pb (split_on CHR 0x0A ((w # ws) @ t)) =
        count_blocks pb (hd (split_on CHR 0x0A (ws @ t)) # tl (split_on CHR 0x0A (ws @ t)))"
      using w by (simp add: blank_Cons)
    also have "\<dots> = count_blocks pb (split_on CHR 0x0A (ws @ t))"
      using split_on_nonempty [of "CHR 0x0A" "ws @ t"] by simp
    finally show ?thesis using IH [of pb] False by simp
  qed
qed

lemma matches_no_newline:
  assumes "\<forall>c\<in>set ws. c \<noteq> CHR 0x0A"
  shows "matches re_blank (ws @ t) = matches re_blank t"
  using assms by (induction ws) (simp_all add: re_blank_def)

lemma matches_blank:
  assumes "s \<noteq> [] \<longrightarrow> \<not> is_space (last s)"
  shows "matches re_blank s = count_blocks False (tl (split_on CHR 0x0A s))"
  using assms
proof (induction "length s" arbitrary: s rule: less_induct)
  case less
  show ?case
  proof (cases s)
    case Nil
    then show ?thesis by simp
  next
    case (Cons c cs)
    show ?thesis
    proof (cases "c = CHR 0x0A")
      case False
      have "matches re_blank cs = count_blocks False (tl (split_on CHR 0x0A cs))"
        using less.prems Cons by (intro less.hyps) auto
      moreover have "re_blank (c # cs) = None" using False by (simp add: re_blank_def)
      ultimately show ?thesis
        using Cons split_on_other [OF False, of cs] by simp
    next
      case True
      let ?run = "takeWhile is_space cs"
      let ?t = "dropWhile is_space cs"
      let ?upto = "dropWhile (\<lambda>d. d \<noteq> CHR 0x0A) (rev ?run)"
      let ?tail = "takeWhile (\<lambda>d. d \<noteq> CHR 0x0A) (rev ?run)"
      have cs: "cs \<noteq> []" using less.prems Cons True is_space_newline by auto
      then have lastcs: "\<not> is_space (last cs)" using less.prems Cons by auto
      have t: "?t \<noteq> []"
      proof
        assume "?t = []"
        then have "\<forall>x\<in>set cs. is_space x" by simp
        with cs lastcs show False using last_in_set by blast
      qed
      have "last ?t = last cs" using t by (rule last_dropWhile)
      with lastcs have "?t \<noteq> [] \<longrightarrow> \<not> is_space (last ?t)" by simp
      moreover have "length ?t < length s"
        using Cons length_dropWhile_le [of is_space cs] by simp
      ultimately have IH: "matches re_blank ?t = count_blocks False (tl (split_on CHR 0x0A ?t))"
        using less.hyps by blast
      have run: "\<forall>c\<in>set ?run. is_space c" by (auto dest: set_takeWhileD)
      have cs_eq: "cs = ?run @ ?t" by simp
      have "count_blocks False (tl (split_on CHR 0x0A s)) =
          count_blocks False (split_on CHR 0x0A cs)"
        using Cons True by simp
      also have "\<dots> = count_blocks False (split_on CHR 0x0A (?run @ ?t))" by simp
      also have "\<dots> = (if CHR 0x0A \<in> set ?run then 1 else 0)
          + count_blocks False (tl (split_on CHR 0x0A ?t))"
        using count_blocks_run [OF run t hd_dropWhile [OF t], of False] by simp
      finally have rhs: "count_blocks False (tl (split_on CHR 0x0A s)) =
          (if CHR 0x0A \<in> set ?run then 1 else 0) + matches re_blank ?t"
        using IH by simp
      show ?thesis
      proof (cases "CHR 0x0A \<in> set ?run")
        case False
        then have "?upto = []" by auto
        then have "re_blank (c # cs) = None" using True by (simp add: re_blank_def)
        then have "matches re_blank s = matches re_blank cs" using Cons by simp
        also have "\<dots> = matches re_blank (?run @ ?t)" by simp
        also have "\<dots> = matches re_blank ?t"
          using False by (intro matches_no_newline) auto
        finally show ?thesis using rhs False by simp
      next
        case in_run: True
        then have upto: "?upto \<noteq> []" by auto
        then have "re_blank (c # cs) = Some (1 + length ?upto)"
          using True by (simp add: re_blank_def Let_def)
        then have "matches re_blank s = Suc (matches re_blank (drop (length ?upto) cs))"
          using Cons by simp
        moreover have "?run = rev ?upto @ rev ?tail"
        proof -
          have "rev ?run = ?tail @ ?upto" by simp
          then have "rev (rev ?run) = rev (?tail @ ?upto)" by (rule arg_cong)
          then show ?thesis by (simp only: rev_rev_ident rev_append)
        qed
        then have "cs = rev ?upto @ (rev ?tail @ ?t)"
          using cs_eq by (metis append.assoc)
        then have "drop (length ?upto) cs = rev ?tail @ ?t"
          by (metis append_eq_conv_conj length_rev)
        moreover have "matches re_blank (rev ?tail @ ?t) = matches re_blank ?t"
          by (intro matches_no_newline) (auto dest: set_takeWhileD)
        ultimately show ?thesis using rhs in_run by simp
      qed
    qed
  qed
qed

lemma paragraphs_trimmed:
  assumes "trim text \<noteq> []"
  shows "length (split_re re_blank (trim text)) =
           count_blocks True (split_on CHR 0x0A (trim text))"
proof -
  have "length (split_re re_blank (trim text)) = Suc (matches re_blank (trim text))"
    using assms re_blank_pos by (rule length_split_re)
  also have "\<dots> = Suc (count_blocks False (tl (split_on CHR 0x0A (trim text))))"
    using trim_ends(2) [OF assms] by (simp add: matches_blank)
  also have "\<dots> = count_blocks True (split_on CHR 0x0A (trim text))"
    using count_blocks_run [of "[]" "trim text" True] assms trim_ends(1) [OF assms] by simp
  finally show ?thesis .
qed

lemma readTime_nonblank:
  assumes "trim text \<noteq> []"
  shows "readTime (stats text) = decimal ((words (stats text) + 199) div 200) @ '' min''"
  using assms by (simp add: stats_def ceil_div_200_def)

section \<open>Claims about the word counter\<close>

text \<open>
  C7: for every text, the word count is the number of tokens separated by runs of white
  space in the trimmed text, the character count is the length of the text, the count
  without spaces is the length less the white space characters, and the paragraph count
  is the number of blocks of lines separated by blank lines in the trimmed text; both
  counts are 0 when the trimmed text is empty. For \<open>hello world\<close> the counts are 2, 11,
  10 and 1; for the empty text the words and the paragraphs are 0.
\<close>

theorem word_counter_counts:
  "words (stats text) = spec_words text
   \<and> chars (stats text) = length text
   \<and> charsNoSpace (stats text) = length text - length (filter is_space text)
   \<and> paragraphs (stats text) = spec_paragraphs text
   \<and> words (stats ''hello world'') = 2 \<and> chars (stats ''hello world'') = 11
   \<and> charsNoSpace (stats ''hello world'') = 10 \<and> paragraphs (stats ''hello world'') = 1
   \<and> words (stats '''') = 0 \<and> paragraphs (stats '''') = 0"
proof -
  have w: "words (stats text) = spec_words text"
    by (simp add: stats_def spec_words_def words_trimmed)
  have p: "paragraphs (stats text) = spec_paragraphs text"
    by (simp add: stats_def spec_paragraphs_def paragraphs_trimmed)
  have "length (filter is_space text) + length (filter (\<lambda>c. \<not> is_space c) text) = length text"
    by (rule sum_length_filter_compl)
  then have c: "charsNoSpace (stats text) = length text - length (filter is_space text)"
    by (simp add: stats_def)
  have h: "stats ''hello world'' =
      \<lparr>words = 2, chars = 11, charsNoSpace = 10, paragraphs = 1, readTime = ''1 min''\<rparr>"
    by code_simp
  have e: "stats '''' =
      \<lparr>words = 0, chars = 0, charsNoSpace = 0, paragraphs = 0, readTime = ''1 min''\<rparr>"
    by code_simp
  show ?thesis
    using w p c by (simp add: h e) (simp add: stats_def)
qed

text \<open>
  C8 says that the reading time is the ceiling of the counter's word count over 200, so
  that the empty text reads \<open>0 min\<close>. The word count and the paragraph count guard the
  empty trimmed text; the reading time does not, and splitting the empty string gives one
  empty piece: the empty text has 0 words and reads \<open>1 min\<close>.
\<close>

theorem empty_text_reads_one_minute:
  "words (stats '''') = 0 \<and> readTime (stats '''') = ''1 min''"
  by code_simp

end
